theory Spec2Isabelle
  imports Main "HOL-Library.Log_Nat"
begin

section \<open>Post store (database.py)\<close>

text \<open>
  One row of table \<open>posts\<close>, which is also the dictionary that
  \<open>VKPostParser.parse_post_data\<close> builds: that function always supplies all eighteen
  keys, so the defaults of \<open>post_data.get(key, default)\<close> in \<open>add_post\<close> never
  apply. Columns are typed as the data model has them (identifiers and counters are
  Python integers, hence unbounded); only \<open>video_duration\<close> and \<open>video_title\<close> are
  ever \<open>None\<close> on the ingestion path.
\<close>

record post_row =
  post_id :: string
  source_type :: string
  owner_id :: int
  owner_name :: string
  post_url :: string
  post_text :: string
  date_published :: int
  post_views :: int
  likes :: int
  comments :: int
  reposts :: int
  has_video :: int
  video_views :: int
  video_duration :: "int option"
  video_title :: "string option"
  first_collected :: int
  last_updated :: int
  hashtag :: string

text \<open>The table: its rows in insertion order.\<close>

type_synonym database = "post_row list"

text \<open>
  Whether SQLite executes a statement or raises \<open>sqlite3.Error\<close> for a reason of its
  own (locked file, full disk). Every method of \<open>Database\<close> catches that error and
  turns it into its failure value, so the outcome is an argument of the model.
\<close>

datatype storage = StorageOk | StorageError

definition post_exists :: "storage \<Rightarrow> string \<Rightarrow> database \<Rightarrow> bool" where
  "post_exists st pid db =
     (case st of
        StorageError \<Rightarrow> False
      | StorageOk \<Rightarrow> pid \<in> set (map post_id db))"

text \<open>
  \<open>add_post\<close>: the INSERT violates the PRIMARY KEY when a row with the same
  \<open>post_id\<close> is stored (\<open>sqlite3.IntegrityError\<close>, answered with \<open>False\<close>); any other
  \<open>sqlite3.Error\<close> is answered with \<open>False\<close> too. The result is the returned flag
  and the table afterwards.
\<close>

definition add_post :: "storage \<Rightarrow> post_row \<Rightarrow> database \<Rightarrow> bool \<times> database" where
  "add_post st post_data db =
     (if post_id post_data \<in> set (map post_id db) then (False, db)
      else case st of
             StorageError \<Rightarrow> (False, db)
           | StorageOk \<Rightarrow> (True, db @ [post_data]))"

text \<open>
  The \<open>metrics\<close> dictionary of \<open>update_post\<close>. Its keys are column names; the model
  has the nine columns that the refresh path writes (\<open>parse_metrics\<close> is the only
  producer of this dictionary in the repository), each either supplied or not.
  For the two nullable columns a supplied value may itself be \<open>None\<close>.
\<close>

record metrics =
  m_post_views :: "int option"
  m_likes :: "int option"
  m_comments :: "int option"
  m_reposts :: "int option"
  m_has_video :: "int option"
  m_video_views :: "int option"
  m_video_duration :: "int option option"
  m_video_title :: "string option option"
  m_last_updated :: "int option"

definition no_metrics :: metrics where
  "no_metrics =
     \<lparr>m_post_views = None, m_likes = None, m_comments = None, m_reposts = None,
      m_has_video = None, m_video_views = None, m_video_duration = None,
      m_video_title = None, m_last_updated = None\<rparr>"

definition supplied :: "'a option \<Rightarrow> 'a \<Rightarrow> 'a" where
  "supplied new old = (case new of None \<Rightarrow> old | Some v \<Rightarrow> v)"

text \<open>The effect of \<open>SET key = ?, ...\<close> on one row.\<close>

definition set_columns :: "metrics \<Rightarrow> post_row \<Rightarrow> post_row" where
  "set_columns m r =
     r\<lparr>post_views := supplied (m_post_views m) (post_views r),
       likes := supplied (m_likes m) (likes r),
       comments := supplied (m_comments m) (comments r),
       reposts := supplied (m_reposts m) (reposts r),
       has_video := supplied (m_has_video m) (has_video r),
       video_views := supplied (m_video_views m) (video_views r),
       video_duration := supplied (m_video_duration m) (video_duration r),
       video_title := supplied (m_video_title m) (video_title r),
       last_updated := supplied (m_last_updated m) (last_updated r)\<rparr>"

text \<open>
  \<open>update_post\<close>: with an empty dictionary the statement text is
  \<open>UPDATE posts SET  WHERE post_id = ?\<close>, a syntax error, hence \<open>sqlite3.Error\<close> and
  \<open>False\<close>. Otherwise the rows with the given id are rewritten and the answer is
  \<open>cursor.rowcount > 0\<close>.
\<close>

definition update_post :: "storage \<Rightarrow> string \<Rightarrow> metrics \<Rightarrow> database \<Rightarrow> bool \<times> database" where
  "update_post st pid m db =
     (if m = no_metrics then (False, db)
      else case st of
             StorageError \<Rightarrow> (False, db)
           | StorageOk \<Rightarrow>
               if pid \<in> set (map post_id db)
               then (True, map (\<lambda>r. if post_id r = pid then set_columns m r else r) db)
               else (False, db))"

text \<open>
  \<open>get_all_posts\<close>: \<open>SELECT * ... ORDER BY date_published DESC\<close>; an
  \<open>sqlite3.Error\<close> gives the empty list. SQL leaves the order of rows with equal dates
  open; the model keeps their insertion order.
\<close>

definition get_all_posts :: "storage \<Rightarrow> database \<Rightarrow> post_row list" where
  "get_all_posts st db =
     (case st of
        StorageError \<Rightarrow> []
      | StorageOk \<Rightarrow> sort_key (\<lambda>r. - date_published r) db)"

definition get_post_count :: "storage \<Rightarrow> database \<Rightarrow> nat" where
  "get_post_count st db = (case st of StorageError \<Rightarrow> 0 | StorageOk \<Rightarrow> length db)"


section \<open>Python strings and integers\<close>

text \<open>
  \<open>str(i)\<close> for an integer, \<open>s.split(sep)\<close> for a one-character separator,
  \<open>s.strip()\<close> and \<open>int(s)\<close>. Strings are ASCII here; \<open>int\<close> accepts surrounding
  white space, one sign, and single underscores between digits, and raises
  \<open>ValueError\<close> (\<open>None\<close> in the model) on anything else. The bound of 4300 digits
  that CPython 3.11 puts on conversions between \<open>int\<close> and \<open>str\<close> is not modelled.
\<close>

definition digit_char :: "nat \<Rightarrow> char" where
  "digit_char n = ''0123456789'' ! n"

function digits10 :: "nat \<Rightarrow> string" where
  "digits10 n = (if n < 10 then [digit_char n] else digits10 (n div 10) @ [digit_char (n mod 10)])"
  by pat_completeness auto
termination
  by (relation "measure id") auto

declare digits10.simps [simp del]

definition py_str :: "int \<Rightarrow> string" where
  "py_str i = (if i < 0 then CHR ''-'' # digits10 (nat (- i)) else digits10 (nat i))"

fun py_split :: "char \<Rightarrow> string \<Rightarrow> string list" where
  "py_split sep [] = [[]]"
| "py_split sep (c # cs) =
     (if c = sep then [] # py_split sep cs
      else case py_split sep cs of
             [] \<Rightarrow> [[c]]
           | w # ws \<Rightarrow> (c # w) # ws)"

definition is_space :: "char \<Rightarrow> bool" where
  "is_space c = (of_char c \<in> {9, 10, 11, 12, 13, 28, 29, 30, 31, 32 :: nat})"

definition py_strip :: "string \<Rightarrow> string" where
  "py_strip s = rev (dropWhile is_space (rev (dropWhile is_space s)))"

definition is_digit :: "char \<Rightarrow> bool" where
  "is_digit c = (48 \<le> (of_char c :: nat) \<and> (of_char c :: nat) \<le> 57)"

definition digit_val :: "char \<Rightarrow> nat" where
  "digit_val c = of_char c - 48"

fun digit_run :: "nat \<Rightarrow> string \<Rightarrow> nat option" where
  "digit_run acc [] = Some acc"
| "digit_run acc [c] = (if is_digit c then Some (10 * acc + digit_val c) else None)"
| "digit_run acc (c # d # ds) =
     (if is_digit c then digit_run (10 * acc + digit_val c) (d # ds)
      else if c = CHR ''_'' \<and> is_digit d then digit_run (10 * acc + digit_val d) ds
      else None)"

definition digits_value :: "string \<Rightarrow> nat option" where
  "digits_value s =
     (case s of
        [] \<Rightarrow> None
      | c # cs \<Rightarrow> if is_digit c then digit_run (digit_val c) cs else None)"

definition py_int :: "string \<Rightarrow> int option" where
  "py_int s =
     (case py_strip s of
        [] \<Rightarrow> None
      | c # cs \<Rightarrow>
          if c = CHR ''-'' then map_option (\<lambda>n. - int n) (digits_value cs)
          else if c = CHR ''+'' then map_option int (digits_value cs)
          else map_option int (digits_value (c # cs)))"

text \<open>\<open>a or b\<close> and \<open>not a\<close> on values that are an integer or \<open>None\<close>.\<close>

definition falsy :: "int option \<Rightarrow> bool" where
  "falsy a = (case a of None \<Rightarrow> True | Some v \<Rightarrow> v = 0)"

definition py_or :: "int option \<Rightarrow> int option \<Rightarrow> int option" where
  "py_or a b = (if falsy a then b else a)"

section \<open>Post normalizer (collectors/vk/vk_post_parser.py)\<close>

text \<open>
  A raw post of the VK API: every key may be missing. A counter such as \<open>likes\<close> is
  missing, or is not a dictionary, or is a dictionary with or without \<open>count\<close>.
\<close>

datatype counter = NoKey | NotMapping | Mapping "int option"

record video =
  v_views :: "int option"
  v_duration :: "int option"
  v_title :: "string option"

record attachment =
  a_type :: "string option"
  a_video :: "video option"

record raw_post =
  r_owner_id :: "int option"
  r_from_id :: "int option"
  r_id :: "int option"
  r_text :: "string option"
  r_date :: "int option"
  r_views :: counter
  r_likes :: counter
  r_comments :: counter
  r_reposts :: counter
  r_attachments :: "attachment list option"

definition empty_post :: raw_post where
  "empty_post =
     \<lparr>r_owner_id = None, r_from_id = None, r_id = None, r_text = None, r_date = None,
      r_views = NoKey, r_likes = NoKey, r_comments = NoKey, r_reposts = NoKey,
      r_attachments = None\<rparr>"

definition parse_post_id :: "int \<Rightarrow> int \<Rightarrow> string" where
  "parse_post_id owner pid = py_str owner @ ''_'' @ py_str pid"

definition build_post_url :: "int \<Rightarrow> int \<Rightarrow> string" where
  "build_post_url owner pid = ''https://vk.com/wall'' @ py_str owner @ ''_'' @ py_str pid"

record video_info =
  vi_has_video :: int
  vi_video_views :: int
  vi_video_duration :: "int option"
  vi_video_title :: "string option"

definition no_video :: video_info where
  "no_video =
     \<lparr>vi_has_video = 0, vi_video_views = 0, vi_video_duration = None, vi_video_title = None\<rparr>"

fun first_video :: "attachment list \<Rightarrow> video_info" where
  "first_video [] = no_video"
| "first_video (a # rest) =
     (if a_type a = Some ''video''
      then (let v = (case a_video a of
                       None \<Rightarrow> \<lparr>v_views = None, v_duration = None, v_title = None\<rparr>
                     | Some v \<Rightarrow> v)
            in \<lparr>vi_has_video = 1,
                vi_video_views = (case v_views v of None \<Rightarrow> 0 | Some n \<Rightarrow> n),
                vi_video_duration = v_duration v,
                vi_video_title = v_title v\<rparr>)
      else first_video rest)"

definition extract_video_info :: "raw_post \<Rightarrow> video_info" where
  "extract_video_info post =
     (case r_attachments post of
        None \<Rightarrow> no_video
      | Some attachments \<Rightarrow> first_video attachments)"

definition count_of :: "counter \<Rightarrow> int" where
  "count_of c = (case c of Mapping (Some n) \<Rightarrow> n | _ \<Rightarrow> 0)"

record post_metrics =
  pm_post_views :: int
  pm_likes :: int
  pm_comments :: int
  pm_reposts :: int

definition extract_metrics :: "raw_post \<Rightarrow> post_metrics" where
  "extract_metrics post =
     \<lparr>pm_post_views = count_of (r_views post), pm_likes = count_of (r_likes post),
      pm_comments = count_of (r_comments post), pm_reposts = count_of (r_reposts post)\<rparr>"

text \<open>
  \<open>parse_post_data\<close>; the first argument is the reading of \<open>datetime.now()\<close>. Both
  callers have checked that the owner and post identifiers are present; without them
  the Python dictionary would carry \<open>None\<close> identifiers, which a row cannot hold, and
  the model answers \<open>None\<close>.
\<close>

definition parse_post_data ::
  "int \<Rightarrow> raw_post \<Rightarrow> string \<Rightarrow> string \<Rightarrow> string \<Rightarrow> post_row option" where
  "parse_post_data now post stype oname tag =
     (case (py_or (r_owner_id post) (r_from_id post), r_id post) of
        (Some owner, Some pid) \<Rightarrow>
          (let pm = extract_metrics post; vi = extract_video_info post
           in Some \<lparr>post_id = parse_post_id owner pid,
                    source_type = stype,
                    owner_id = owner,
                    owner_name = oname,
                    post_url = build_post_url owner pid,
                    post_text = (case r_text post of None \<Rightarrow> [] | Some t \<Rightarrow> t),
                    date_published = (case r_date post of None \<Rightarrow> 0 | Some d \<Rightarrow> d),
                    post_views = pm_post_views pm,
                    likes = pm_likes pm,
                    comments = pm_comments pm,
                    reposts = pm_reposts pm,
                    has_video = vi_has_video vi,
                    video_views = vi_video_views vi,
                    video_duration = vi_video_duration vi,
                    video_title = vi_video_title vi,
                    first_collected = now,
                    last_updated = now,
                    hashtag = tag\<rparr>)
      | _ \<Rightarrow> None)"

definition parse_metrics :: "int \<Rightarrow> raw_post \<Rightarrow> metrics" where
  "parse_metrics now post =
     (let pm = extract_metrics post; vi = extract_video_info post
      in \<lparr>m_post_views = Some (pm_post_views pm),
          m_likes = Some (pm_likes pm),
          m_comments = Some (pm_comments pm),
          m_reposts = Some (pm_reposts pm),
          m_has_video = Some (vi_has_video vi),
          m_video_views = Some (vi_video_views vi),
          m_video_duration = Some (vi_video_duration vi),
          m_video_title = Some (vi_video_title vi),
          m_last_updated = Some now\<rparr>)"


section \<open>Source client (collectors/vk/vk_api_client.py)\<close>

text \<open>
  An exception is a value. A call into the \<open>vk_api\<close> library answers with a response
  or raises; the client catches \<open>ApiError\<close> and \<open>ApiHttpError\<close> and lets every other
  exception through.
\<close>

datatype exn = ApiError int | ApiHttpError | ValueError | OtherError

type_synonym group = "string option"
type_synonym user = "string option \<times> string option"

text \<open>
  The remote service: the outcome of each method for its arguments. The response of
  \<open>newsfeed.search\<close> is a dictionary that may lack \<open>items\<close>; a group is its \<open>name\<close>,
  a user is \<open>first_name\<close> and \<open>last_name\<close>, each possibly missing.
\<close>

record vk_api =
  newsfeed_search :: "string \<Rightarrow> int \<Rightarrow> exn + raw_post list option"
  wall_getById :: "string \<Rightarrow> exn + raw_post list"
  groups_getById :: "int \<Rightarrow> exn + group list"
  users_get :: "int \<Rightarrow> exn + user list"

text \<open>
  What the client does towards the outside, in order: a request to a method of the
  remote service, or \<open>_make_pause\<close> (\<open>time.sleep(self.api_delay)\<close>).
\<close>

datatype event = Request string | Pause

definition search_posts ::
  "vk_api \<Rightarrow> string \<Rightarrow> int \<Rightarrow> (exn + raw_post list) \<times> event list" where
  "search_posts vk tag cnt =
     (let q = (if tag \<noteq> [] \<and> hd tag = CHR ''#'' then tag else CHR ''#'' # tag);
          n = min cnt 200
      in case newsfeed_search vk q n of
           Inr response \<Rightarrow>
             (Inr (case response of None \<Rightarrow> [] | Some items \<Rightarrow> items),
              [Request ''newsfeed.search'', Pause])
         | Inl (ApiError code) \<Rightarrow> (Inr [], [Request ''newsfeed.search''])
         | Inl ApiHttpError \<Rightarrow> (Inr [], [Request ''newsfeed.search''])
         | Inl e \<Rightarrow> (Inl e, [Request ''newsfeed.search'']))"

definition get_post_by_id ::
  "vk_api \<Rightarrow> int \<Rightarrow> int \<Rightarrow> (exn + raw_post option) \<times> event list" where
  "get_post_by_id vk owner pid =
     (case wall_getById vk (py_str owner @ ''_'' @ py_str pid) of
        Inr response \<Rightarrow>
          (Inr (case response of [] \<Rightarrow> None | post # _ \<Rightarrow> Some post),
           [Request ''wall.getById'', Pause])
      | Inl (ApiError code) \<Rightarrow> (Inr None, [Request ''wall.getById'', Pause])
      | Inl ApiHttpError \<Rightarrow> (Inr None, [Request ''wall.getById'', Pause])
      | Inl e \<Rightarrow> (Inl e, [Request ''wall.getById'']))"

definition get_group_info :: "vk_api \<Rightarrow> int \<Rightarrow> (exn + string option) \<times> event list" where
  "get_group_info vk gid =
     (case groups_getById vk gid of
        Inr response \<Rightarrow>
          (Inr (case response of
                  [] \<Rightarrow> None
                | g # _ \<Rightarrow> Some (case g of None \<Rightarrow> ''Unknown Group'' | Some name \<Rightarrow> name)),
           [Request ''groups.getById'', Pause])
      | Inl (ApiError code) \<Rightarrow> (Inr None, [Request ''groups.getById'', Pause])
      | Inl ApiHttpError \<Rightarrow> (Inr None, [Request ''groups.getById'', Pause])
      | Inl e \<Rightarrow> (Inl e, [Request ''groups.getById'']))"

definition get_user_info :: "vk_api \<Rightarrow> int \<Rightarrow> (exn + string option) \<times> event list" where
  "get_user_info vk uid =
     (case users_get vk uid of
        Inr response \<Rightarrow>
          (Inr (case response of
                  [] \<Rightarrow> None
                | u # _ \<Rightarrow>
                    Some (py_strip ((case fst u of None \<Rightarrow> [] | Some f \<Rightarrow> f) @ '' '' @
                                    (case snd u of None \<Rightarrow> [] | Some l \<Rightarrow> l)))),
           [Request ''users.get'', Pause])
      | Inl (ApiError code) \<Rightarrow> (Inr None, [Request ''users.get'', Pause])
      | Inl ApiHttpError \<Rightarrow> (Inr None, [Request ''users.get'', Pause])
      | Inl e \<Rightarrow> (Inl e, [Request ''users.get'']))"

text \<open>
  The rule of section 4.2: in a sequence of events every request is directly followed
  by a pause.
\<close>

fun paused :: "event list \<Rightarrow> bool" where
  "paused [] = True"
| "paused (Pause # es) = paused es"
| "paused (Request m # es) = (case es of Pause # rest \<Rightarrow> paused rest | _ \<Rightarrow> False)"

section \<open>Collector (collectors/vk/vk_collector.py)\<close>

text \<open>
  What a workflow meets outside the program while it handles its \<open>k\<close>-th record: the
  remote service, the storage outcome of the existence check and of the write, and
  the reading of \<open>datetime.now()\<close>; \<open>sql_select\<close> is the storage outcome of the one
  scan of \<open>get_all_posts\<close>.
\<close>

record world =
  vk :: vk_api
  sql_select :: storage
  sql_exists :: "nat \<Rightarrow> storage"
  sql_write :: "nat \<Rightarrow> storage"
  clock :: "nat \<Rightarrow> int"

definition get_owner_info :: "vk_api \<Rightarrow> int \<Rightarrow> exn + string \<times> string" where
  "get_owner_info api owner =
     (if owner < 0
      then (case fst (get_group_info api (abs owner)) of
              Inl e \<Rightarrow> Inl e
            | Inr name \<Rightarrow>
                (case name of
                   None \<Rightarrow> Inr (''group'', ''Group '' @ py_str (abs owner))
                 | Some n \<Rightarrow> if n \<noteq> [] then Inr (''group'', n)
                            else Inr (''group'', ''Group '' @ py_str (abs owner))))
      else (case fst (get_user_info api owner) of
              Inl e \<Rightarrow> Inl e
            | Inr name \<Rightarrow>
                (case name of
                   None \<Rightarrow> Inr (''user'', ''User '' @ py_str owner)
                 | Some n \<Rightarrow> if n \<noteq> [] then Inr (''user'', n)
                            else Inr (''user'', ''User '' @ py_str owner))))"

text \<open>
  The body of the \<open>try\<close> of \<open>process_new_post\<close>, where an exception of the name lookup
  travels upwards, and the method itself, whose \<open>except Exception\<close> answers \<open>False\<close>.
\<close>

definition process_new_post_try ::
  "world \<Rightarrow> nat \<Rightarrow> raw_post \<Rightarrow> string \<Rightarrow> database \<Rightarrow> exn + bool \<times> database" where
  "process_new_post_try w k post tag db =
     (let owner = py_or (r_owner_id post) (r_from_id post); pid = r_id post
      in if falsy owner \<or> falsy pid then Inr (False, db)
         else case owner of
                None \<Rightarrow> Inr (False, db)
              | Some oid \<Rightarrow>
                  (case get_owner_info (vk w) oid of
                     Inl e \<Rightarrow> Inl e
                   | Inr (stype, oname) \<Rightarrow>
                       (case parse_post_data (clock w k) post stype oname tag of
                          None \<Rightarrow> Inr (False, db)
                        | Some post_data \<Rightarrow> Inr (add_post (sql_write w k) post_data db))))"

definition process_new_post ::
  "world \<Rightarrow> nat \<Rightarrow> raw_post \<Rightarrow> string \<Rightarrow> database \<Rightarrow> bool \<times> database" where
  "process_new_post w k post tag db =
     (case process_new_post_try w k post tag db of
        Inl e \<Rightarrow> (False, db)
      | Inr res \<Rightarrow> res)"

text \<open>
  \<open>update_post_metrics\<close>: the \<open>try\<close> body, where \<open>int\<close> raises \<open>ValueError\<close> and the
  fetch may raise, and the method with its two \<open>except\<close> clauses. A fetched post that
  is an empty dictionary is falsy and counts as unavailable.
\<close>

definition update_post_metrics_try ::
  "world \<Rightarrow> nat \<Rightarrow> string \<Rightarrow> database \<Rightarrow> exn + bool \<times> database" where
  "update_post_metrics_try w k pid db =
     (case py_split CHR ''_'' pid of
        [a, b] \<Rightarrow>
          (case py_int a of
             None \<Rightarrow> Inl ValueError
           | Some owner \<Rightarrow>
               (case py_int b of
                  None \<Rightarrow> Inl ValueError
                | Some vk_post_id \<Rightarrow>
                    (case fst (get_post_by_id (vk w) owner vk_post_id) of
                       Inl e \<Rightarrow> Inl e
                     | Inr None \<Rightarrow> Inr (False, db)
                     | Inr (Some post) \<Rightarrow>
                         if post = empty_post then Inr (False, db)
                         else Inr (update_post (sql_write w k) pid
                                     (parse_metrics (clock w k) post) db))))
      | _ \<Rightarrow> Inr (False, db))"

definition update_post_metrics :: "world \<Rightarrow> nat \<Rightarrow> string \<Rightarrow> database \<Rightarrow> bool \<times> database" where
  "update_post_metrics w k pid db =
     (case update_post_metrics_try w k pid db of
        Inl ValueError \<Rightarrow> (False, db)
      | Inl e \<Rightarrow> (False, db)
      | Inr res \<Rightarrow> res)"

text \<open>
  The loop of \<open>collect_new_posts\<close>: \<open>k\<close> is the position of the record, \<open>added\<close> the
  counter. No statement of its body raises in the model, so its \<open>except\<close> is not
  entered.
\<close>

fun collect_loop ::
  "world \<Rightarrow> string \<Rightarrow> nat \<Rightarrow> raw_post list \<Rightarrow> database \<Rightarrow> nat \<Rightarrow> nat \<times> database" where
  "collect_loop w tag k [] db added = (added, db)"
| "collect_loop w tag k (post # rest) db added =
     (let owner = py_or (r_owner_id post) (r_from_id post); pid = r_id post
      in case (owner, pid) of
           (Some oid, Some p) \<Rightarrow>
             if oid = 0 \<or> p = 0 then collect_loop w tag (Suc k) rest db added
             else if post_exists (sql_exists w k) (parse_post_id oid p) db
             then collect_loop w tag (Suc k) rest db added
             else (case process_new_post w k post tag db of
                     (True, db') \<Rightarrow> collect_loop w tag (Suc k) rest db' (added + 1)
                   | (False, db') \<Rightarrow> collect_loop w tag (Suc k) rest db' added)
         | _ \<Rightarrow> collect_loop w tag (Suc k) rest db added)"

text \<open>
  \<open>collect_new_posts\<close>: the search is outside every \<open>try\<close>, so an exception that
  \<open>search_posts\<close> lets through leaves the method.
\<close>

definition collect_new_posts :: "world \<Rightarrow> string \<Rightarrow> database \<Rightarrow> exn + nat \<times> database" where
  "collect_new_posts w tag db =
     (case fst (search_posts (vk w) tag 100) of
        Inl e \<Rightarrow> Inl e
      | Inr posts \<Rightarrow> if posts = [] then Inr (0, db) else Inr (collect_loop w tag 0 posts db 0))"

text \<open>
  The loop of \<open>update_all_posts\<close> over \<open>enumerate(all_posts, 1)\<close> with its two
  counters; the progress message every tenth record is not modelled.
\<close>

fun update_loop ::
  "world \<Rightarrow> nat \<Rightarrow> post_row list \<Rightarrow> database \<Rightarrow> nat \<Rightarrow> nat \<Rightarrow> (nat \<times> nat) \<times> database" where
  "update_loop w k [] db updated errors = ((updated, errors), db)"
| "update_loop w k (post # rest) db updated errors =
     (if post_id post = [] then update_loop w (Suc k) rest db updated (errors + 1)
      else case update_post_metrics w k (post_id post) db of
             (True, db') \<Rightarrow> update_loop w (Suc k) rest db' (updated + 1) errors
           | (False, db') \<Rightarrow> update_loop w (Suc k) rest db' updated (errors + 1))"

definition update_all_posts :: "world \<Rightarrow> database \<Rightarrow> (nat \<times> nat) \<times> database" where
  "update_all_posts w db =
     (let all_posts = get_all_posts (sql_select w) db
      in if all_posts = [] then ((0, 0), db) else update_loop w 1 all_posts db 0 0)"


section \<open>Python floats\<close>

text \<open>
  A Python \<open>float\<close> is an IEEE 754 binary64 number; the model keeps its exact value as
  a rational. \<open>fl q\<close> is the double nearest to \<open>q\<close>, ties to the even significand: the
  result of every correctly rounded operation (true division of integers,
  multiplication, addition, conversion from decimal) whose exact result is \<open>q\<close>.
  The exponent is not bounded, so overflow and subnormal numbers are outside the
  model; quotients of 64-bit counters are far from both.
\<close>

definition rne :: "int \<Rightarrow> int \<Rightarrow> int" where
  \<comment> \<open>the integer nearest to \<open>a / b\<close> for \<open>b > 0\<close>, ties to even\<close>
  "rne a b =
     (let q = a div b; r = a mod b
      in if 2 * r < b then q
         else if b < 2 * r then q + 1
         else if even q then q else q + 1)"

function bit_length :: "int \<Rightarrow> int" where
  "bit_length n = (if n \<le> 0 then 0 else 1 + bit_length (n div 2))"
  by pat_completeness auto
termination
  by (relation "measure nat") auto

declare bit_length.simps [simp del]

definition pow2 :: "int \<Rightarrow> rat" where
  "pow2 e = (if 0 \<le> e then 2 ^ nat e else 1 / 2 ^ nat (- e))"

definition fl_quot :: "int \<Rightarrow> int \<Rightarrow> rat" where
  \<comment> \<open>the double nearest to \<open>a / b\<close> for \<open>b > 0\<close>\<close>
  "fl_quot a b =
     (if a = 0 then 0
      else let n = \<bar>a\<bar>;
               k = bit_length n - bit_length b;
               e0 = (if (if 0 \<le> k then b * 2 ^ nat k \<le> n else b \<le> n * 2 ^ nat (- k))
                     then k else k - 1);
               e = e0 - 52;
               m = (if 0 \<le> e then rne n (b * 2 ^ nat e) else rne (n * 2 ^ nat (- e)) b)
           in of_int (sgn a * m) * pow2 e)"

definition fl :: "rat \<Rightarrow> rat" where
  "fl q = (case quotient_of q of (a, b) \<Rightarrow> fl_quot a b)"

text \<open>
  \<open>round(x, 2)\<close> on a float: the exact value of \<open>x\<close> is rounded to two decimals, ties
  to even, and the decimal result is converted back to the nearest double.
\<close>

definition py_round2 :: "rat \<Rightarrow> rat" where
  "py_round2 x = (case quotient_of (x * 100) of (a, b) \<Rightarrow> fl (of_int (rne a b) / 100))"


section \<open>Metrics aggregator (reports/data_aggregator.py)\<close>














section \<open>Notions for the collector\<close>

text \<open>
  The identifiers of a raw post as both workflows read them (\<open>None\<close> when the post
  is skipped); whether handling the \<open>k\<close>-th record fails for a reason outside the
  program (the name lookup raises, or the write meets a storage error); and whether,
  for every record of a result list, the post is in a set of stored ids or its
  handling fails in that way.
\<close>

definition ids_of :: "raw_post \<Rightarrow> (int \<times> int) option" where
  "ids_of post =
     (case (py_or (r_owner_id post) (r_from_id post), r_id post) of
        (Some oid, Some p) \<Rightarrow> if oid = 0 \<or> p = 0 then None else Some (oid, p)
      | _ \<Rightarrow> None)"

definition stuck :: "world \<Rightarrow> nat \<Rightarrow> int \<Rightarrow> bool" where
  "stuck w k oid = (isl (get_owner_info (vk w) oid) \<or> sql_write w k = StorageError)"

fun settled :: "world \<Rightarrow> nat \<Rightarrow> raw_post list \<Rightarrow> string set \<Rightarrow> bool" where
  "settled w k [] S = True"
| "settled w k (post # rest) S =
     ((case ids_of post of
         None \<Rightarrow> True
       | Some (oid, p) \<Rightarrow> parse_post_id oid p \<in> S \<or> stuck w k oid)
      \<and> settled w (Suc k) rest S)"

text \<open>
  Reachable states of the store, each with the time at which it is reached. The store
  starts empty and changes only by runs of the two workflows. The clock never goes
  back: every reading of \<open>datetime.now()\<close> during a run lies between the time at
  which the run starts and the time at which it ends.
\<close>

inductive reachable :: "int \<Rightarrow> database \<Rightarrow> bool" where
  start: "reachable t []"
| collect: "reachable t db \<Longrightarrow> (\<forall>k. t \<le> clock w k \<and> clock w k \<le> t') \<Longrightarrow>
     collect_new_posts w tag db = Inr (added, db') \<Longrightarrow> reachable t' db'"
| refresh: "reachable t db \<Longrightarrow> (\<forall>k. t \<le> clock w k \<and> clock w k \<le> t') \<Longrightarrow>
     update_all_posts w db = (counts, db') \<Longrightarrow> reachable t' db'"

code_pred reachable .

text \<open>The invariant behind the timestamps, for a run from \<open>t\<close> to \<open>t'\<close>.\<close>

definition stamps_ok :: "int \<Rightarrow> int \<Rightarrow> database \<Rightarrow> bool" where
  "stamps_ok t t' db =
     (\<forall>r \<in> set db. first_collected r \<le> last_updated r \<and> first_collected r \<le> t \<and>
        last_updated r \<le> t')"

section \<open>Notions for the aggregator\<close>



section \<open>Example data\<close>


definition example_post :: raw_post where
  "example_post =
     \<lparr>r_owner_id = Some (- 12345), r_from_id = None, r_id = Some 67890,
      r_text = Some ''hello'', r_date = Some 1704067200,
      r_views = Mapping (Some 250), r_likes = Mapping (Some 7), r_comments = NoKey,
      r_reposts = NotMapping, r_attachments = None\<rparr>"

definition rate_limited :: vk_api where
  "rate_limited =
     \<lparr>newsfeed_search = (\<lambda>q n. Inl (ApiError 6)),
      wall_getById = (\<lambda>p. Inl (ApiError 6)),
      groups_getById = (\<lambda>g. Inl (ApiError 6)),
      users_get = (\<lambda>u. Inl (ApiError 6))\<rparr>"

definition example_api :: vk_api where
  "example_api =
     \<lparr>newsfeed_search = (\<lambda>q n. Inr (Some [example_post])),
      wall_getById = (\<lambda>posts. if posts = ''-12345_67890'' then Inr [example_post] else Inr []),
      groups_getById = (\<lambda>g. Inr [Some ''Club'']),
      users_get = (\<lambda>u. Inr [(Some ''Ivan'', Some ''Petrov'')])\<rparr>"

definition example_world :: world where
  "example_world =
     \<lparr>vk = example_api, sql_select = StorageOk, sql_exists = (\<lambda>k. StorageOk),
      sql_write = (\<lambda>k. StorageOk), clock = (\<lambda>k. 1704070000)\<rparr>"

definition later_world :: world where
  "later_world = example_world\<lparr>clock := (\<lambda>k. 1704080000)\<rparr>"

definition deleted_world :: world where
  "deleted_world = later_world\<lparr>vk := example_api\<lparr>wall_getById := (\<lambda>posts. Inr [])\<rparr>\<rparr>"

definition stored_post :: post_row where
  "stored_post =
     \<lparr>post_id = ''-12345_67890'', source_type = ''group'', owner_id = - 12345,
      owner_name = ''Club'', post_url = ''https://vk.com/wall-12345_67890'',
      post_text = ''hello'', date_published = 1704067200, post_views = 250, likes = 7,
      comments = 0, reposts = 0, has_video = 0, video_views = 0, video_duration = None,
      video_title = None, first_collected = 1704070000, last_updated = 1704070000,
      hashtag = ''tag''\<rparr>"





section \<open>Properties of the post store\<close>





lemma update_post_cases:
  "update_post st pid m db = (ok, db') \<Longrightarrow>
     (ok \<and> pid \<in> set (map post_id db) \<and> m \<noteq> no_metrics \<and> st = StorageOk \<and>
      db' = map (\<lambda>r. if post_id r = pid then set_columns m r else r) db)
     \<or> (\<not> ok \<and> db' = db)"
  by (auto simp: update_post_def split: if_splits storage.splits)

lemma update_post_missing:
  "pid \<notin> set (map post_id db) \<Longrightarrow> update_post st pid m db = (False, db)"
  by (simp add: update_post_def split: storage.splits)




section \<open>Properties of the composite identifier\<close>

lemma of_char_digit_char:
  assumes "n < 10"
  shows "(of_char (digit_char n) :: nat) = 48 + n"
proof -
  from assms have "n \<in> {0, 1, 2, 3, 4, 5, 6, 7, 8, 9}"
    by auto
  then show ?thesis
    by (auto simp: digit_char_def)
qed

lemma digit_char_props:
  assumes "n < 10"
  shows "is_digit (digit_char n)" "digit_val (digit_char n) = n"
    "digit_char n \<noteq> CHR ''_''" "digit_char n \<noteq> CHR ''-''" "digit_char n \<noteq> CHR ''+''"
    "\<not> is_space (digit_char n)"
proof -
  have v: "(of_char (digit_char n) :: nat) = 48 + n"
    using assms by (rule of_char_digit_char)
  show "is_digit (digit_char n)" using assms by (simp add: is_digit_def v)
  show "digit_val (digit_char n) = n" by (simp add: digit_val_def v)
  have "(of_char (digit_char n) :: nat) \<noteq> of_char CHR ''_''" using assms by (simp add: v)
  then show "digit_char n \<noteq> CHR ''_''" by (simp only: of_char_eq_iff not_False_eq_True)
  have "(of_char (digit_char n) :: nat) \<noteq> of_char CHR ''-''" using assms by (simp add: v)
  then show "digit_char n \<noteq> CHR ''-''" by (simp only: of_char_eq_iff not_False_eq_True)
  have "(of_char (digit_char n) :: nat) \<noteq> of_char CHR ''+''" using assms by (simp add: v)
  then show "digit_char n \<noteq> CHR ''+''" by (simp only: of_char_eq_iff not_False_eq_True)
  show "\<not> is_space (digit_char n)" using assms by (simp add: is_space_def v)
qed

lemma digits10_digits: "c \<in> set (digits10 n) \<Longrightarrow> is_digit c"
proof (induction n arbitrary: c rule: digits10.induct)
  case (1 n)
  show ?case
  proof (cases "n < 10")
    case True
    with "1.prems" show ?thesis
      by (simp add: digits10.simps [of n] digit_char_props)
  next
    case False
    with "1.prems" have "c \<in> set (digits10 (n div 10)) \<or> c = digit_char (n mod 10)"
      by (auto simp: digits10.simps [of n])
    then show ?thesis
      using "1.IH" [OF False] by (auto simp: digit_char_props)
  qed
qed

lemma digits10_nonempty: "digits10 n \<noteq> []"
  by (simp add: digits10.simps [of n])

lemma digits10_last: "is_digit (last (digits10 n))"
  using digits10_digits [of "last (digits10 n)" n] digits10_nonempty [of n] by simp

lemma digits10_hd: "is_digit (hd (digits10 n))"
  using digits10_digits [of "hd (digits10 n)" n] digits10_nonempty [of n] by simp

lemma digit_run_digits:
  "\<forall>c \<in> set ds. is_digit c \<Longrightarrow>
     digit_run acc ds = Some (foldl (\<lambda>a c. 10 * a + digit_val c) acc ds)"
  by (induction acc ds rule: digit_run.induct) simp_all

lemma digits10_value: "foldl (\<lambda>a c. 10 * a + digit_val c) 0 (digits10 n) = n"
proof (induction n rule: digits10.induct)
  case (1 n)
  show ?case
  proof (cases "n < 10")
    case True
    then show ?thesis by (simp add: digits10.simps [of n] digit_char_props)
  next
    case False
    then have "n mod 10 < 10" by simp
    with False "1.IH" show ?thesis
      by (simp add: digits10.simps [of n] digit_char_props)
  qed
qed

lemma digits_value_digits10: "digits_value (digits10 n) = Some n"
proof (cases "digits10 n")
  case Nil
  then show ?thesis using digits10_nonempty by simp
next
  case (Cons c cs)
  have all: "\<forall>x \<in> set (c # cs). is_digit x"
    using digits10_digits [of _ n] Cons by simp
  then have "digit_run (digit_val c) cs = Some (foldl (\<lambda>a c. 10 * a + digit_val c) 0 (c # cs))"
    by (simp add: digit_run_digits)
  with all Cons digits10_value [of n] show ?thesis
    by (simp add: digits_value_def)
qed

lemma is_digit_not_special:
  "is_digit c \<Longrightarrow> \<not> is_space c \<and> c \<noteq> CHR ''-'' \<and> c \<noteq> CHR ''+'' \<and> c \<noteq> CHR ''_''"
  by (auto simp: is_digit_def is_space_def)

lemma py_strip_id:
  "s \<noteq> [] \<Longrightarrow> \<not> is_space (hd s) \<Longrightarrow> \<not> is_space (last s) \<Longrightarrow> py_strip s = s"
proof -
  assume s: "s \<noteq> []" and h: "\<not> is_space (hd s)" and l: "\<not> is_space (last s)"
  from s h have "dropWhile is_space s = s" by (cases s) simp_all
  moreover from s l have "dropWhile is_space (rev s) = rev s"
    by (cases "rev s") (simp_all add: last_rev [symmetric] hd_rev)
  ultimately show ?thesis by (simp add: py_strip_def)
qed

lemma py_int_py_str: "py_int (py_str i) = Some i"
proof (cases "i < 0")
  case True
  let ?ds = "digits10 (nat (- i))"
  have "\<not> is_space (CHR ''-'')" by (simp add: is_space_def)
  moreover have "\<not> is_space (last (CHR ''-'' # ?ds))"
    using digits10_last [of "nat (- i)"] digits10_nonempty [of "nat (- i)"]
    by (simp add: is_digit_not_special)
  ultimately have "py_strip (CHR ''-'' # ?ds) = CHR ''-'' # ?ds"
    by (intro py_strip_id) simp_all
  with True show ?thesis
    by (simp add: py_int_def py_str_def digits_value_digits10)
next
  case False
  let ?ds = "digits10 (nat i)"
  obtain c cs where cs: "?ds = c # cs"
    using digits10_nonempty [of "nat i"] by (cases ?ds) auto
  have c: "is_digit c" using digits10_hd [of "nat i"] cs by simp
  have "py_strip ?ds = ?ds"
    using digits10_hd [of "nat i"] digits10_last [of "nat i"] digits10_nonempty [of "nat i"]
    by (intro py_strip_id) (simp_all add: is_digit_not_special)
  moreover have "digits_value (c # cs) = Some (nat i)"
    using digits_value_digits10 [of "nat i"] cs by simp
  ultimately show ?thesis
    using False cs c is_digit_not_special [OF c] by (simp add: py_int_def py_str_def)
qed

lemma py_str_no_underscore: "CHR ''_'' \<notin> set (py_str i)"
  using digits10_digits is_digit_not_special by (auto simp: py_str_def)

lemma py_split_nonempty: "py_split sep s \<noteq> []"
  by (induction s) (auto split: list.splits)

lemma py_split_none: "sep \<notin> set s \<Longrightarrow> py_split sep s = [s]"
  by (induction s) auto

lemma py_split_first: "sep \<notin> set a \<Longrightarrow> py_split sep (a @ sep # b) = a # py_split sep b"
  by (induction a) auto

lemma split_parse_post_id:
  "py_split CHR ''_'' (parse_post_id owner pid) = [py_str owner, py_str pid]"
  using py_split_first [of "CHR ''_''" "py_str owner" "py_str pid"]
  by (simp add: parse_post_id_def py_str_no_underscore py_split_none)

text \<open>
  C10. The composite id that \<open>parse_post_id\<close> builds from two integers of either
  sign splits on the underscore into exactly two parts, the decimal texts of the two
  integers, and \<open>int\<close> of each part is the integer again. So \<open>update_post_metrics\<close>
  on such an id takes neither the branch for a wrong number of parts nor the
  \<open>ValueError\<close> of \<open>int\<close>: what it returns is decided by the fetch for exactly these
  two identifiers.
\<close>

theorem parse_post_id_roundtrip:
  "py_split CHR ''_'' (parse_post_id owner pid) = [py_str owner, py_str pid] \<and>
   py_int (py_str owner) = Some owner \<and> py_int (py_str pid) = Some pid \<and>
   update_post_metrics_try w k (parse_post_id owner pid) db =
     (case fst (get_post_by_id (vk w) owner pid) of
        Inl e \<Rightarrow> Inl e
      | Inr None \<Rightarrow> Inr (False, db)
      | Inr (Some post) \<Rightarrow>
          if post = empty_post then Inr (False, db)
          else Inr (update_post (sql_write w k) (parse_post_id owner pid)
                      (parse_metrics (clock w k) post) db))"
  by (simp add: update_post_metrics_try_def split_parse_post_id py_int_py_str)

lemma py_str_example: "py_str (- 12345) = ''-12345''" "py_str 67890 = ''67890''"
  by (simp_all add: py_str_def digits10.simps digit_char_def)

theorem parse_post_id_roundtrip_witness:
  "py_split CHR ''_'' (parse_post_id (- 12345) 67890) = [''-12345'', ''67890''] \<and>
   py_int ''-12345'' = Some (- 12345) \<and> py_int ''67890'' = Some 67890"
  using parse_post_id_roundtrip [of "- 12345" 67890]
  by (simp add: py_str_example)

section \<open>Properties of the source client\<close>

text \<open>
  C5. The remote service answers the search with \<open>ApiError\<close> code 6 (rate limit):
  \<open>search_posts\<close> returns the empty list after the request alone, with no pause,
  while \<open>get_post_by_id\<close> under the same error pauses before it returns.
\<close>

theorem search_posts_error_no_pause:
  "search_posts rate_limited ''tag'' 100 = (Inr [], [Request ''newsfeed.search'']) \<and>
   \<not> paused (snd (search_posts rate_limited ''tag'' 100)) \<and>
   get_post_by_id rate_limited (- 12345) 67890 = (Inr None, [Request ''wall.getById'', Pause]) \<and>
   paused (snd (get_post_by_id rate_limited (- 12345) 67890))"
  by (simp add: search_posts_def get_post_by_id_def rate_limited_def)

text \<open>
  The other three methods pause after every request whose outcome they handle.
\<close>

lemma caught_calls_paused:
  "paused (snd (get_post_by_id api owner pid)) \<or> (\<exists>e. fst (get_post_by_id api owner pid) = Inl e)"
  "paused (snd (get_group_info api gid)) \<or> (\<exists>e. fst (get_group_info api gid) = Inl e)"
  "paused (snd (get_user_info api uid)) \<or> (\<exists>e. fst (get_user_info api uid) = Inl e)"
  by (auto simp: get_post_by_id_def get_group_info_def get_user_info_def
      split: sum.splits exn.splits)

section \<open>Properties of the refresh workflow\<close>

lemma update_post_length: "length (snd (update_post st pid m db)) = length db"
  by (simp add: update_post_def split: storage.splits)

lemma update_post_False: "update_post st pid m db = (False, db') \<Longrightarrow> db' = db"
  by (auto simp: update_post_def split: storage.splits if_splits)

lemma update_post_metrics_try_False:
  "update_post_metrics_try w k pid db = Inr (False, db') \<Longrightarrow> db' = db"
  by (auto simp: update_post_metrics_try_def
      split: list.splits option.splits sum.splits if_splits dest: update_post_False)

lemma update_post_metrics_False: "update_post_metrics w k pid db = (False, db') \<Longrightarrow> db' = db"
  by (auto simp: update_post_metrics_def split: sum.splits exn.splits
      dest: update_post_metrics_try_False)

lemma update_post_metrics_raised:
  "update_post_metrics_try w k pid db = Inl e \<Longrightarrow> update_post_metrics w k pid db = (False, db)"
  by (simp add: update_post_metrics_def split: exn.splits)

lemma update_loop_count:
  "update_loop w k posts db updated errors = ((updated', errors'), db') \<Longrightarrow>
     updated' + errors' = updated + errors + length posts \<and> errors \<le> errors'"
proof (induction posts arbitrary: k db updated errors)
  case Nil
  then show ?case by simp
next
  case (Cons post rest)
  show ?case
  proof (cases "post_id post = []")
    case True
    with Cons.prems have "update_loop w (Suc k) rest db updated (errors + 1)
        = ((updated', errors'), db')"
      by simp
    from Cons.IH [OF this] show ?thesis by simp
  next
    case False
    obtain ok db1 where step: "update_post_metrics w k (post_id post) db = (ok, db1)"
      by (cases "update_post_metrics w k (post_id post) db")
    show ?thesis
    proof (cases ok)
      case True
      with False step Cons.prems have "update_loop w (Suc k) rest db1 (updated + 1) errors
          = ((updated', errors'), db')"
        by simp
      from Cons.IH [OF this] show ?thesis by simp
    next
      case no: False
      with False step Cons.prems have "update_loop w (Suc k) rest db1 updated (errors + 1)
          = ((updated', errors'), db')"
        by simp
      from Cons.IH [OF this] show ?thesis by simp
    qed
  qed
qed

lemma parse_post_id_nonempty: "parse_post_id a b \<noteq> []"
  by (simp add: parse_post_id_def py_str_def digits10_nonempty)

lemma update_post_metrics_try_parsed:
  "update_post_metrics_try w k (parse_post_id owner pid) db =
     (case fst (get_post_by_id (vk w) owner pid) of
        Inl e \<Rightarrow> Inl e
      | Inr None \<Rightarrow> Inr (False, db)
      | Inr (Some post) \<Rightarrow>
          if post = empty_post then Inr (False, db)
          else Inr (update_post (sql_write w k) (parse_post_id owner pid)
                      (parse_metrics (clock w k) post) db))"
  by (simp add: update_post_metrics_try_def split_parse_post_id py_int_py_str)

lemma update_post_metrics_gone:
  assumes "wall_getById (vk w) (parse_post_id a b) = Inr [] \<or>
           (\<exists>c. wall_getById (vk w) (parse_post_id a b) = Inl (ApiError c)) \<or>
           wall_getById (vk w) (parse_post_id a b) = Inl ApiHttpError"
  shows "update_post_metrics w k (parse_post_id a b) db = (False, db)"
proof -
  from assms have "fst (get_post_by_id (vk w) a b) = Inr None"
    by (auto simp: get_post_by_id_def parse_post_id_def)
  then have "update_post_metrics_try w k (parse_post_id a b) db = Inr (False, db)"
    by (simp add: update_post_metrics_try_def split_parse_post_id py_int_py_str)
  then show ?thesis by (simp add: update_post_metrics_def)
qed

lemma update_loop_gone:
  assumes "r \<in> set posts" and "post_id r = parse_post_id a b"
    and "wall_getById (vk w) (parse_post_id a b) = Inr [] \<or>
         (\<exists>c. wall_getById (vk w) (parse_post_id a b) = Inl (ApiError c)) \<or>
         wall_getById (vk w) (parse_post_id a b) = Inl ApiHttpError"
    and "update_loop w k posts db updated errors = ((updated', errors'), db')"
  shows "errors + 1 \<le> errors'"
  using assms(1,4)
proof (induction posts arbitrary: k db updated errors)
  case Nil
  then show ?case by simp
next
  case (Cons post rest)
  show ?case
  proof (cases "post = r")
    case True
    have "update_post_metrics w k (post_id post) db = (False, db)"
      using True assms(2,3) update_post_metrics_gone by simp
    with True assms(2) Cons.prems(2)
    have "update_loop w (Suc k) rest db updated (errors + 1) = ((updated', errors'), db')"
      by (simp add: parse_post_id_nonempty)
    from update_loop_count [OF this] show ?thesis by simp
  next
    case False
    with Cons.prems(1) have r: "r \<in> set rest" by simp
    obtain ok db1 where step: "update_post_metrics w k (post_id post) db = (ok, db1)"
      by (cases "update_post_metrics w k (post_id post) db")
    from Cons.prems(2) step
    obtain u1 e1 d1 where next_run: "update_loop w (Suc k) rest d1 u1 e1 = ((updated', errors'), db')"
      and "errors \<le> e1"
      by (cases "post_id post = []"; cases ok) auto
    from Cons.IH [OF r next_run] \<open>errors \<le> e1\<close> show ?thesis by simp
  qed
qed

lemma length_get_all_posts: "length (get_all_posts StorageOk db) = length db"
  by (simp add: get_all_posts_def)

lemma set_get_all_posts: "set (get_all_posts StorageOk db) = set db"
  by (simp add: get_all_posts_def)

text \<open>
  C3. \<open>update_all_posts\<close> is a total function of the store and of what it meets
  outside: every exception of the per-record work (\<open>ValueError\<close> of a malformed id,
  anything the fetch raises) is a value that \<open>update_post_metrics\<close> turns into
  \<open>False\<close>, so the workflow always returns its pair of counters. The two counters add
  up to the number of posts that the scan returned, which is the number of stored
  posts unless the scan itself failed. When a stored post has a well-formed id and
  the remote service answers the fetch for it with an empty response or an error of
  the API (the post is deleted or not accessible), the error counter is at least one.
\<close>

theorem update_all_posts_counts:
  "\<exists>updated errors db'.
     update_all_posts w db = ((updated, errors), db') \<and>
     updated + errors = length (get_all_posts (sql_select w) db) \<and>
     (sql_select w = StorageOk \<longrightarrow> updated + errors = length db) \<and>
     (sql_select w = StorageOk \<and>
      (\<exists>r \<in> set db. \<exists>a b. post_id r = parse_post_id a b \<and>
         (wall_getById (vk w) (parse_post_id a b) = Inr [] \<or>
          (\<exists>c. wall_getById (vk w) (parse_post_id a b) = Inl (ApiError c)) \<or>
          wall_getById (vk w) (parse_post_id a b) = Inl ApiHttpError))
      \<longrightarrow> 1 \<le> errors)"
proof -
  obtain updated errors db' where run: "update_all_posts w db = ((updated, errors), db')"
    by (cases "update_all_posts w db") auto
  let ?all = "get_all_posts (sql_select w) db"
  have loop: "?all \<noteq> [] \<Longrightarrow> update_loop w 1 ?all db 0 0 = ((updated, errors), db')"
    using run by (simp add: update_all_posts_def Let_def)
  have count: "updated + errors = length ?all"
  proof (cases "?all = []")
    case True
    with run show ?thesis by (simp add: update_all_posts_def Let_def)
  next
    case False
    from update_loop_count [OF loop [OF False]] show ?thesis by simp
  qed
  have gone: "1 \<le> errors"
    if ok: "sql_select w = StorageOk" and r: "r \<in> set db" "post_id r = parse_post_id a b"
      and g: "wall_getById (vk w) (parse_post_id a b) = Inr [] \<or>
          (\<exists>c. wall_getById (vk w) (parse_post_id a b) = Inl (ApiError c)) \<or>
          wall_getById (vk w) (parse_post_id a b) = Inl ApiHttpError"
    for r a b
  proof -
    from ok r have mem: "r \<in> set ?all" by (simp add: set_get_all_posts)
    then have "?all \<noteq> []" by auto
    from update_loop_gone [OF mem r(2) g loop [OF this]] show ?thesis by simp
  qed
  from run count gone show ?thesis
    by (auto simp: length_get_all_posts)
qed


section \<open>Properties of the ingest workflow\<close>

lemma collect_loop_skip:
  "ids_of post = None \<Longrightarrow>
     collect_loop w tag k (post # rest) db added = collect_loop w tag (Suc k) rest db added"
  by (auto simp: ids_of_def Let_def split: option.splits if_splits)

lemma collect_loop_step:
  "ids_of post = Some (oid, p) \<Longrightarrow>
     collect_loop w tag k (post # rest) db added =
       (if post_exists (sql_exists w k) (parse_post_id oid p) db
        then collect_loop w tag (Suc k) rest db added
        else case process_new_post w k post tag db of
               (True, db') \<Rightarrow> collect_loop w tag (Suc k) rest db' (added + 1)
             | (False, db') \<Rightarrow> collect_loop w tag (Suc k) rest db' added)"
  by (auto simp: ids_of_def Let_def split: option.splits if_splits)

declare collect_loop.simps(2) [simp del]

lemma ids_of_SomeD:
  "ids_of post = Some (oid, p) \<Longrightarrow>
     py_or (r_owner_id post) (r_from_id post) = Some oid \<and> r_id post = Some p \<and> oid \<noteq> 0 \<and> p \<noteq> 0"
  by (auto simp: ids_of_def split: option.splits if_splits)

lemma process_new_post_ids:
  assumes "ids_of post = Some (oid, p)"
  shows "process_new_post w k post tag db =
     (case get_owner_info (vk w) oid of
        Inl e \<Rightarrow> (False, db)
      | Inr (stype, oname) \<Rightarrow>
          (case parse_post_data (clock w k) post stype oname tag of
             None \<Rightarrow> (False, db)
           | Some post_data \<Rightarrow> add_post (sql_write w k) post_data db))"
  using ids_of_SomeD [OF assms]
  by (auto simp: process_new_post_def process_new_post_try_def falsy_def Let_def
      split: sum.splits option.splits prod.splits)

lemma parse_post_data_ids:
  assumes "ids_of post = Some (oid, p)"
  shows "\<exists>row. parse_post_data now post stype oname tag = Some row \<and>
           post_id row = parse_post_id oid p \<and> first_collected row = now \<and>
           last_updated row = now"
  using ids_of_SomeD [OF assms] by (simp add: parse_post_data_def Let_def)

lemma process_new_post_stuck:
  assumes "ids_of post = Some (oid, p)" and "stuck w k oid"
  shows "process_new_post w k post tag db = (False, db)"
proof -
  obtain row where row: "\<And>stype oname.
      \<exists>row. parse_post_data (clock w k) post stype oname tag = Some row"
    using parse_post_data_ids [OF assms(1)] by blast
  show ?thesis
  proof (cases "get_owner_info (vk w) oid")
    case (Inl e)
    then show ?thesis by (simp add: process_new_post_ids [OF assms(1)])
  next
    case (Inr names)
    with assms(2) have st: "sql_write w k = StorageError" by (simp add: stuck_def)
    obtain stype oname where names: "names = (stype, oname)" by (cases names)
    obtain r where "parse_post_data (clock w k) post stype oname tag = Some r"
      using parse_post_data_ids [OF assms(1)] by blast
    with Inr names st show ?thesis
      by (simp add: process_new_post_ids [OF assms(1)] add_post_def)
  qed
qed

lemma process_new_post_present:
  assumes "ids_of post = Some (oid, p)" and "parse_post_id oid p \<in> set (map post_id db)"
  shows "process_new_post w k post tag db = (False, db)"
proof (cases "get_owner_info (vk w) oid")
  case (Inl e)
  then show ?thesis by (simp add: process_new_post_ids [OF assms(1)])
next
  case (Inr names)
  obtain stype oname where names: "names = (stype, oname)" by (cases names)
  obtain r where "parse_post_data (clock w k) post stype oname tag = Some r"
      "post_id r = parse_post_id oid p"
    using parse_post_data_ids [OF assms(1)] by blast
  with Inr names assms(2) show ?thesis
    by (simp add: process_new_post_ids [OF assms(1)] add_post_def)
qed

lemma process_new_post_fresh:
  assumes "ids_of post = Some (oid, p)" and "\<not> stuck w k oid"
    and "parse_post_id oid p \<notin> set (map post_id db)"
  shows "\<exists>row. process_new_post w k post tag db = (True, db @ [row]) \<and>
           post_id row = parse_post_id oid p \<and> first_collected row = clock w k \<and>
           last_updated row = clock w k"
proof -
  from assms(2) obtain stype oname where names: "get_owner_info (vk w) oid = Inr (stype, oname)"
    and st: "sql_write w k = StorageOk"
    by (cases "get_owner_info (vk w) oid"; cases "sql_write w k") (auto simp: stuck_def)
  obtain r where r: "parse_post_data (clock w k) post stype oname tag = Some r"
      "post_id r = parse_post_id oid p" "first_collected r = clock w k"
      "last_updated r = clock w k"
    using parse_post_data_ids [OF assms(1)] by blast
  with names st assms(3) show ?thesis
    by (simp add: process_new_post_ids [OF assms(1)] add_post_def)
qed

lemma process_new_post_cases:
  assumes "ids_of post = Some (oid, p)"
  shows "process_new_post w k post tag db = (False, db) \<or>
         (\<exists>row. process_new_post w k post tag db = (True, db @ [row]) \<and>
            post_id row = parse_post_id oid p \<and> post_id row \<notin> set (map post_id db) \<and>
            first_collected row = clock w k \<and> last_updated row = clock w k)"
proof (cases "stuck w k oid \<or> parse_post_id oid p \<in> set (map post_id db)")
  case True
  then show ?thesis
    using process_new_post_stuck [OF assms] process_new_post_present [OF assms] by blast
next
  case False
  then show ?thesis using process_new_post_fresh [OF assms, of w k db tag] by auto
qed


lemma settled_mono: "settled w k posts S \<Longrightarrow> S \<subseteq> T \<Longrightarrow> settled w k posts T"
  by (induction posts arbitrary: k) (auto split: option.splits)




lemma collect_new_posts_searched:
  "fst (search_posts (vk w) tag 100) = Inr posts \<Longrightarrow>
     collect_new_posts w tag db =
       (if posts = [] then Inr (0, db) else Inr (collect_loop w tag 0 posts db 0))"
  by (simp add: collect_new_posts_def)

lemma collect_new_posts_raised:
  "fst (search_posts (vk w) tag 100) = Inl e \<Longrightarrow> collect_new_posts w tag db = Inl e"
  by (simp add: collect_new_posts_def)



section \<open>Timestamps\<close>

lemma stamps_ok_later: "stamps_ok t t db \<Longrightarrow> t \<le> t' \<Longrightarrow> stamps_ok t' t' db"
  by (fastforce simp: stamps_ok_def)

lemma stamps_ok_widen: "stamps_ok t t' db \<Longrightarrow> t \<le> t' \<Longrightarrow> stamps_ok t' t' db"
  by (fastforce simp: stamps_ok_def)

lemma collect_loop_stamps:
  assumes "\<forall>k. clock w k \<le> t'"
  shows "stamps_ok t' t' db \<Longrightarrow> collect_loop w tag k posts db added = (added', db') \<Longrightarrow>
     stamps_ok t' t' db'"
proof (induction posts arbitrary: k db added)
  case Nil
  then show ?case by simp
next
  case (Cons post rest)
  show ?case
  proof (cases "ids_of post")
    case None
    with Cons.prems have "collect_loop w tag (Suc k) rest db added = (added', db')"
      by (simp add: collect_loop_skip)
    from Cons.IH [OF Cons.prems(1) this] show ?thesis .
  next
    case (Some ids)
    obtain oid p where ids: "ids_of post = Some (oid, p)" using Some by (cases ids) simp
    have "\<exists>db1 a1. collect_loop w tag (Suc k) rest db1 a1 = (added', db') \<and> stamps_ok t' t' db1"
    proof (cases "post_exists (sql_exists w k) (parse_post_id oid p) db")
      case True
      with Cons.prems show ?thesis by (auto simp: collect_loop_step [OF ids])
    next
      case False
      from process_new_post_cases [OF ids, of w k tag db]
      consider "process_new_post w k post tag db = (False, db)"
        | row where "process_new_post w k post tag db = (True, db @ [row])"
          "first_collected row = clock w k" "last_updated row = clock w k"
        by blast
      then show ?thesis
      proof cases
        case 1
        with False Cons.prems show ?thesis by (auto simp: collect_loop_step [OF ids])
      next
        case 2
        with False Cons.prems
        have "collect_loop w tag (Suc k) rest (db @ [row]) (added + 1) = (added', db')"
          by (simp add: collect_loop_step [OF ids])
        moreover have "stamps_ok t' t' (db @ [row])"
          using Cons.prems(1) 2(2,3) assms by (auto simp: stamps_ok_def)
        ultimately show ?thesis by blast
      qed
    qed
    then obtain db1 a1 where "collect_loop w tag (Suc k) rest db1 a1 = (added', db')"
      "stamps_ok t' t' db1"
      by blast
    from Cons.IH [OF this(2) this(1)] show ?thesis .
  qed
qed

lemma update_post_metrics_result:
  "update_post_metrics w k pid db = (ok, db') \<Longrightarrow>
     db' = db \<or>
     (\<exists>post. db' = map (\<lambda>r. if post_id r = pid
                                then set_columns (parse_metrics (clock w k) post) r else r) db)"
proof -
  assume run: "update_post_metrics w k pid db = (ok, db')"
  show ?thesis
  proof (cases "update_post_metrics_try w k pid db")
    case (Inl e)
    with run show ?thesis by (simp add: update_post_metrics_raised)
  next
    case (Inr res)
    with run have res: "update_post_metrics_try w k pid db = Inr (ok, db')"
      by (simp add: update_post_metrics_def)
    then have "db' = db \<or> (\<exists>post.
        update_post (sql_write w k) pid (parse_metrics (clock w k) post) db = (ok, db'))"
      by (auto simp: update_post_metrics_try_def
          split: list.splits option.splits sum.splits if_splits)
    then show ?thesis
      using update_post_cases [of "sql_write w k" pid _ db ok db'] by blast
  qed
qed

lemma set_columns_stamp:
  "last_updated (set_columns (parse_metrics now post) r) = now \<and>
   first_collected (set_columns (parse_metrics now post) r) = first_collected r"
  by (simp add: set_columns_def parse_metrics_def supplied_def Let_def)

lemma update_post_metrics_stamps:
  assumes "stamps_ok t t' db" and "t \<le> clock w k" and "clock w k \<le> t'"
    and "update_post_metrics w k pid db = (ok, db')"
  shows "stamps_ok t t' db'"
proof -
  from update_post_metrics_result [OF assms(4)]
  consider "db' = db"
    | post where "db' = map (\<lambda>r. if post_id r = pid
        then set_columns (parse_metrics (clock w k) post) r else r) db"
    by blast
  then show ?thesis
  proof cases
    case 1
    with assms(1) show ?thesis by simp
  next
    case 2
    show ?thesis
      unfolding stamps_ok_def
    proof
      fix r
      assume "r \<in> set db'"
      with 2 obtain r0 where r0: "r0 \<in> set db"
        and r: "r = (if post_id r0 = pid
          then set_columns (parse_metrics (clock w k) post) r0 else r0)"
        by auto
      from assms(1) r0 have old: "first_collected r0 \<le> last_updated r0"
          "first_collected r0 \<le> t" "last_updated r0 \<le> t'"
        by (auto simp: stamps_ok_def)
      show "first_collected r \<le> last_updated r \<and> first_collected r \<le> t \<and> last_updated r \<le> t'"
      proof (cases "post_id r0 = pid")
        case True
        with r have "last_updated r = clock w k" "first_collected r = first_collected r0"
          by (simp_all add: set_columns_stamp)
        with old assms(2,3) show ?thesis by simp
      next
        case False
        with r old show ?thesis by simp
      qed
    qed
  qed
qed

lemma update_loop_stamps:
  assumes "\<forall>k. t \<le> clock w k \<and> clock w k \<le> t'"
  shows "stamps_ok t t' db \<Longrightarrow> update_loop w k posts db updated errors = (counts, db') \<Longrightarrow>
     stamps_ok t t' db'"
proof (induction posts arbitrary: k db updated errors)
  case Nil
  then show ?case by simp
next
  case (Cons post rest)
  show ?case
  proof (cases "post_id post = []")
    case True
    with Cons.prems have "update_loop w (Suc k) rest db updated (errors + 1) = (counts, db')"
      by simp
    from Cons.IH [OF Cons.prems(1) this] show ?thesis .
  next
    case False
    obtain ok db1 where step: "update_post_metrics w k (post_id post) db = (ok, db1)"
      by (cases "update_post_metrics w k (post_id post) db")
    have ok1: "stamps_ok t t' db1"
      using update_post_metrics_stamps [OF Cons.prems(1) _ _ step] assms by simp
    from False step Cons.prems(2)
    obtain u1 e1 where "update_loop w (Suc k) rest db1 u1 e1 = (counts, db')"
      by (cases ok) auto
    from Cons.IH [OF ok1 this] show ?thesis .
  qed
qed

lemma reachable_stamps: "reachable t db \<Longrightarrow> stamps_ok t t db"
proof (induction rule: reachable.induct)
  case (start t)
  show ?case by (simp add: stamps_ok_def)
next
  case (collect t db w t' tag added db')
  from collect.hyps(2) have le: "t \<le> t'" and upper: "\<forall>k. clock w k \<le> t'"
    by (auto intro: order_trans)
  from collect.IH le have inv: "stamps_ok t' t' db" by (rule stamps_ok_later)
  obtain posts where search: "fst (search_posts (vk w) tag 100) = Inr posts"
    using collect.hyps(3) collect_new_posts_raised [of w tag _ db]
    by (cases "fst (search_posts (vk w) tag 100)") simp_all
  show ?case
  proof (cases "posts = []")
    case True
    with collect.hyps(3) inv show ?thesis
      unfolding collect_new_posts_searched [OF search] by simp
  next
    case False
    with collect.hyps(3) have "collect_loop w tag 0 posts db 0 = (added, db')"
      unfolding collect_new_posts_searched [OF search] by simp
    from collect_loop_stamps [OF upper inv this] show ?thesis .
  qed
next
  case (refresh t db w t' counts db')
  from refresh.hyps(2) have le: "t \<le> t'" by (auto intro: order_trans)
  from refresh.IH le have inv: "stamps_ok t t' db" by (fastforce simp: stamps_ok_def)
  have after: "stamps_ok t t' db'"
  proof (cases "get_all_posts (sql_select w) db = []")
    case True
    with refresh.hyps(3) inv show ?thesis by (simp add: update_all_posts_def)
  next
    case False
    with refresh.hyps(3)
    have "update_loop w 1 (get_all_posts (sql_select w) db) db 0 0 = (counts, db')"
      by (simp add: update_all_posts_def Let_def)
    from update_loop_stamps [OF refresh.hyps(2) inv this] show ?thesis .
  qed
  from after le show ?case by (rule stamps_ok_widen)
qed

lemma parse_post_data_stamp:
  "parse_post_data now post stype oname tag = Some row \<Longrightarrow>
     first_collected row = now \<and> last_updated row = now"
  by (auto simp: parse_post_data_def Let_def split: option.splits)

text \<open>
  C9. In every reachable state of the store, every stored post has
  \<open>first_collected \<le> last_updated\<close>. The row that \<open>parse_post_data\<close> builds for an
  insertion carries one reading of the clock in both fields, and the columns that
  \<open>parse_metrics\<close> supplies for a refresh put a reading of the clock into
  \<open>last_updated\<close> and leave \<open>first_collected\<close> as it is.
\<close>

theorem first_collected_le_last_updated:
  assumes "reachable t db" and "r \<in> set db"
  shows "first_collected r \<le> last_updated r \<and>
    (parse_post_data now post stype oname tag = Some row \<longrightarrow>
       first_collected row = now \<and> last_updated row = now) \<and>
    first_collected (set_columns (parse_metrics now post) r) = first_collected r \<and>
    last_updated (set_columns (parse_metrics now post) r) = now"
proof -
  from reachable_stamps [OF assms(1)] assms(2) have "first_collected r \<le> last_updated r"
    by (simp add: stamps_ok_def)
  then show ?thesis
    using parse_post_data_stamp [of now post stype oname tag row] set_columns_stamp [of now post r]
    by blast
qed

section \<open>The workflows on example data\<close>

lemma example_ids: "ids_of example_post = Some (- 12345, 67890)"
  by (simp add: ids_of_def example_post_def py_or_def falsy_def)

lemma example_parse:
  "parse_post_data now example_post ''group'' ''Club'' ''tag'' =
     Some (stored_post\<lparr>first_collected := now, last_updated := now\<rparr>)"
  by (simp add: parse_post_data_def example_post_def py_or_def falsy_def parse_post_id_def
      build_post_url_def py_str_example extract_metrics_def extract_video_info_def
      no_video_def count_of_def stored_post_def)

lemma example_owner: "get_owner_info example_api (- 12345) = Inr (''group'', ''Club'')"
  by (simp add: get_owner_info_def get_group_info_def example_api_def)

lemma example_world_parts:
  "vk example_world = example_api" "sql_select example_world = StorageOk"
  "sql_exists example_world k = StorageOk" "sql_write example_world k = StorageOk"
  "clock example_world k = 1704070000"
  by (simp_all add: example_world_def)

lemma later_world_parts:
  "vk later_world = example_api" "sql_select later_world = StorageOk"
  "sql_exists later_world k = StorageOk" "sql_write later_world k = StorageOk"
  "clock later_world k = 1704080000"
  by (simp_all add: later_world_def example_world_def)

lemma example_search: "fst (search_posts example_api ''tag'' 100) = Inr [example_post]"
  by (simp add: search_posts_def example_api_def)

lemma example_process:
  "process_new_post example_world 0 example_post ''tag'' [] = (True, [stored_post])"
  by (simp add: process_new_post_ids [OF example_ids] example_world_parts example_owner
      example_parse add_post_def stored_post_def)

lemma example_collect:
  "collect_new_posts example_world ''tag'' [] = Inr (1, [stored_post])"
  by (simp add: collect_new_posts_searched [of example_world "''tag''" "[example_post]"]
      example_world_parts example_search collect_loop_step [OF example_ids]
      post_exists_def example_process)


lemma stored_post_id: "post_id stored_post = parse_post_id (- 12345) 67890"
  by (simp add: stored_post_def parse_post_id_def py_str_example)

theorem update_all_posts_counts_witness:
  "sql_select deleted_world = StorageOk \<and>
   stored_post \<in> set [stored_post] \<and> post_id stored_post = parse_post_id (- 12345) 67890 \<and>
   wall_getById (vk deleted_world) (parse_post_id (- 12345) 67890) = Inr [] \<and>
   fst (update_all_posts deleted_world [stored_post]) = (0, 1)"
proof -
  have gone: "wall_getById (vk deleted_world) (parse_post_id (- 12345) 67890) = Inr []"
    by (simp add: deleted_world_def)
  have ok: "sql_select deleted_world = StorageOk"
    by (simp add: deleted_world_def later_world_def example_world_def)
  from update_all_posts_counts [of deleted_world "[stored_post]"]
  obtain updated errors db' where
    run: "update_all_posts deleted_world [stored_post] = ((updated, errors), db')"
    and count: "updated + errors = length [stored_post]" and err: "1 \<le> errors"
    using ok gone stored_post_id by auto
  from count err have "updated = 0" "errors = 1" by simp_all
  with run ok gone stored_post_id show ?thesis by simp
qed

lemma example_update:
  "update_post StorageOk ''-12345_67890'' (parse_metrics 1704080000 example_post) [stored_post]
     = (True, [stored_post\<lparr>last_updated := 1704080000\<rparr>])"
  by (simp add: update_post_def parse_metrics_def extract_metrics_def extract_video_info_def
      no_video_def count_of_def example_post_def no_metrics_def set_columns_def supplied_def
      stored_post_def)

lemma example_refresh:
  "update_all_posts later_world [stored_post] =
     ((1, 0), [stored_post\<lparr>last_updated := 1704080000\<rparr>])"
proof -
  have fetch: "fst (get_post_by_id example_api (- 12345) 67890) = Inr (Some example_post)"
    by (simp add: get_post_by_id_def example_api_def py_str_example)
  have id: "parse_post_id (- 12345) 67890 = ''-12345_67890''"
    by (simp add: parse_post_id_def py_str_example)
  have "example_post \<noteq> empty_post"
    by (simp add: example_post_def empty_post_def)
  then have "update_post_metrics_try later_world 1 (parse_post_id (- 12345) 67890) [stored_post] =
      Inr (True, [stored_post\<lparr>last_updated := 1704080000\<rparr>])"
    unfolding update_post_metrics_try_parsed
    by (simp add: fetch id later_world_parts example_update)
  then have "update_post_metrics later_world 1 (post_id stored_post) [stored_post] =
      (True, [stored_post\<lparr>last_updated := 1704080000\<rparr>])"
    by (simp add: update_post_metrics_def stored_post_id)
  moreover have "post_id stored_post \<noteq> []" by (simp add: stored_post_def)
  moreover have "get_all_posts (sql_select later_world) [stored_post] = [stored_post]"
    by (simp add: get_all_posts_def later_world_parts)
  ultimately show ?thesis
    by (simp add: update_all_posts_def)
qed

theorem first_collected_le_last_updated_witness:
  "reachable 1704080000 [stored_post\<lparr>last_updated := 1704080000\<rparr>] \<and>
   stored_post\<lparr>last_updated := 1704080000\<rparr> \<in> set [stored_post\<lparr>last_updated := 1704080000\<rparr>] \<and>
   first_collected (stored_post\<lparr>last_updated := 1704080000\<rparr>) = 1704070000 \<and>
   last_updated (stored_post\<lparr>last_updated := 1704080000\<rparr>) = 1704080000"
proof -
  have "reachable 1704070000 [stored_post]"
    by (rule reachable.collect [OF reachable.start [of 1704070000] _ example_collect])
      (simp add: example_world_parts)
  then have reach: "reachable 1704080000 [stored_post\<lparr>last_updated := 1704080000\<rparr>]"
    by (rule reachable.refresh [OF _ _ example_refresh])
      (simp add: later_world_parts)
  from first_collected_le_last_updated
    [OF reach, of "stored_post\<lparr>last_updated := 1704080000\<rparr>"] reach
  show ?thesis by (simp add: stored_post_def)
qed

section \<open>Properties of the aggregator\<close>



















text \<open>
  The model of floats rounds correctly: \<open>rne\<close> is within one half of the quotient,
  \<open>fl\<close> has a relative error of at most one part in \<open>2 ^ 53\<close>, and
  \<open>round(x, 2)\<close> is the double of
  a decimal with two places that is within half a hundredth of \<open>x\<close>.
\<close>

lemma pow2_powi: "pow2 e = 2 powi e"
  by (simp add: pow2_def power_int_def inverse_eq_divide power_one_over)



lemma pow2_nat: "pow2 (int n) = 2 ^ n"
  by (simp add: pow2_powi)











text \<open>Some values of the model of floats, as Python prints them.\<close>

lemma fl_known_values:
  "fl (1 / 10) = 3602879701896397 / 36028797018963968"
  "fl (3 / 100) = 1080863910568919 / 36028797018963968"
  "fl 3 = 3"
  "py_round2 (1 / 8) = fl (12 / 100)"
  by code_simp+









end
